theory Spec2Isabelle
  imports Complex_Main "HOL-Library.Word" "HOL-Library.Char_ord" "HOL-Library.List_Lexorder"
    "HOL-Library.Multiset" "HOL-Library.Sublist"
begin

section \<open>Data model (types.ts)\<close>

text \<open>
  The records of \<^verbatim>\<open>types.ts\<close>. A JavaScript \<^verbatim>\<open>number\<close> field holds a timestamp from
  \<^verbatim>\<open>Date.now()\<close>, a page number or a byte count, all integers, and is an \<open>int\<close> here.
  \<^verbatim>\<open>string | null\<close> and \<^verbatim>\<open>number | null\<close> are options. A \<^verbatim>\<open>Blob\<close> is its byte sequence.
  \<^verbatim>\<open>PdfMetadata = Omit<PdfFile, 'blob'>\<close>: \<open>PdfFile\<close> extends \<open>PdfMetadata\<close> by the blob, so
  that the object rest pattern \<^verbatim>\<open>{ blob, ...metadata }\<close> is \<open>PdfMetadata.truncate\<close>.
  The field names \<^verbatim>\<open>id\<close>, \<^verbatim>\<open>name\<close> and \<^verbatim>\<open>size\<close> carry a suffix, since both records have an
  \<^verbatim>\<open>id\<close> and a \<^verbatim>\<open>name\<close> and HOL has constants \<open>id\<close> and \<open>size\<close>.
\<close>

type_synonym Blob = "8 word list"

record Category =
  id_cat :: string
  name_cat :: string
  createdAt :: int

record PdfMetadata =
  id_pdf :: string
  name_pdf :: string
  categoryId :: "string option"
  addedAt :: int
  lastReadAt :: "int option"
  currentPage :: int
  totalPages :: int
  size_pdf :: int

record PdfFile = PdfMetadata +
  blob :: Blob

section \<open>Object stores (services/db.ts, the schema of getDB)\<close>

text \<open>
  Both object stores are created with \<^verbatim>\<open>keyPath: 'id'\<close>: the key of a record is its own
  \<^verbatim>\<open>id\<close> field, a store holds at most one record for a key, and cursors and \<^verbatim>\<open>getAll\<close>
  walk the records in ascending key order (strings compare by code units, the
  lexicographic order on \<open>string\<close>). An object store is the list of its records in
  ascending key order; \<open>key\<close> reads the key path.
\<close>

fun store_put :: "('a \<Rightarrow> string) \<Rightarrow> 'a \<Rightarrow> 'a list \<Rightarrow> 'a list" where
  "store_put key v [] = [v]"
| "store_put key v (x # xs) =
     (if key v < key x then v # x # xs
      else if key v = key x then v # xs
      else x # store_put key v xs)"

definition store_get :: "('a \<Rightarrow> string) \<Rightarrow> string \<Rightarrow> 'a list \<Rightarrow> 'a option" where
  "store_get key k xs = find (\<lambda>x. key x = k) xs"

definition store_delete :: "('a \<Rightarrow> string) \<Rightarrow> string \<Rightarrow> 'a list \<Rightarrow> 'a list" where
  "store_delete key k xs = filter (\<lambda>x. key x \<noteq> k) xs"

text \<open>The state of the database \<^verbatim>\<open>shelf-life-db\<close>: the two object stores.\<close>

record db_state =
  files :: "PdfFile list"
  categories :: "Category list"

definition empty_db :: db_state where
  "empty_db = \<lparr>files = [], categories = []\<rparr>"

text \<open>
  A store is well formed when its keys are strictly ascending. The empty database is, and
  every operation below keeps it so.
\<close>

definition wf_store :: "('a \<Rightarrow> string) \<Rightarrow> 'a list \<Rightarrow> bool" where
  "wf_store key xs = sorted_wrt (<) (map key xs)"

definition wf_db :: "db_state \<Rightarrow> bool" where
  "wf_db s = (wf_store id_pdf (files s) \<and> wf_store id_cat (categories s))"

section \<open>Array.prototype.sort with a comparator\<close>

text \<open>
  \<^verbatim>\<open>results.sort((a, b) => ...)\<close> is a stable sort: an element goes before the first
  element it does not compare greater than.
\<close>

fun insort_cmp :: "('a \<Rightarrow> 'a \<Rightarrow> 'b::{zero,ord}) \<Rightarrow> 'a \<Rightarrow> 'a list \<Rightarrow> 'a list" where
  "insort_cmp c x [] = [x]"
| "insort_cmp c x (y # ys) = (if c x y \<le> 0 then x # y # ys else y # insort_cmp c x ys)"

definition sort_cmp :: "('a \<Rightarrow> 'a \<Rightarrow> 'b::{zero,ord}) \<Rightarrow> 'a list \<Rightarrow> 'a list" where
  "sort_cmp c xs = foldr (insort_cmp c) xs []"

section \<open>Files (services/db.ts)\<close>

text \<open>
  Every operation is a function from the database state to the new state (and a result
  for the reads). \<^verbatim>\<open>Date.now()\<close> is the argument \<open>now\<close>; the optional argument
  \<^verbatim>\<open>totalPages?: number\<close> is an \<open>int option\<close>. Each operation first awaits \<open>getDB\<close>, modelled
  further down, and then acts on the open database, which is where these functions
  start. Failures of the storage engine itself (quota, unavailable database) are outside
  the model.
\<close>

definition addPdf :: "PdfFile \<Rightarrow> db_state \<Rightarrow> db_state" where
  "addPdf file s = s\<lparr>files := store_put id_pdf file (files s)\<rparr>"

text \<open>
  The cursor of \<open>getAllPdfMetadata\<close> walks the store in key order, pushes each record
  without its blob, and the result is sorted with the comparator
  \<^verbatim>\<open>(a, b) => b.addedAt - a.addedAt\<close>.
\<close>

definition getAllPdfMetadata :: "db_state \<Rightarrow> PdfMetadata list" where
  "getAllPdfMetadata s =
     sort_cmp (\<lambda>a b. addedAt b - addedAt a) (map PdfMetadata.truncate (files s))"

definition getPdfById :: "string \<Rightarrow> db_state \<Rightarrow> PdfFile option" where
  "getPdfById i s = store_get id_pdf i (files s)"

definition updatePdfProgress :: "string \<Rightarrow> int \<Rightarrow> int option \<Rightarrow> int \<Rightarrow> db_state \<Rightarrow> db_state" where
  "updatePdfProgress i page totalPagesArg now s =
     (case store_get id_pdf i (files s) of
        None \<Rightarrow> s
      | Some file \<Rightarrow>
          let file1 = file\<lparr>currentPage := page\<rparr>;
              file2 = file1\<lparr>lastReadAt := Some now\<rparr>;
              file3 = (case totalPagesArg of
                         None \<Rightarrow> file2
                       | Some n \<Rightarrow> if n \<noteq> 0 then file2\<lparr>totalPages := n\<rparr> else file2)
          in s\<lparr>files := store_put id_pdf file3 (files s)\<rparr>)"

definition updatePdfCategory :: "string \<Rightarrow> string option \<Rightarrow> db_state \<Rightarrow> db_state" where
  "updatePdfCategory i newCategoryId s =
     (case store_get id_pdf i (files s) of
        None \<Rightarrow> s
      | Some file \<Rightarrow> s\<lparr>files := store_put id_pdf (file\<lparr>categoryId := newCategoryId\<rparr>) (files s)\<rparr>)"

definition deletePdf :: "string \<Rightarrow> db_state \<Rightarrow> db_state" where
  "deletePdf i s = s\<lparr>files := store_delete id_pdf i (files s)\<rparr>"

section \<open>Categories (services/db.ts)\<close>

definition addCategory :: "Category \<Rightarrow> db_state \<Rightarrow> db_state" where
  "addCategory category s = s\<lparr>categories := store_put id_cat category (categories s)\<rparr>"

definition getCategories :: "db_state \<Rightarrow> Category list" where
  "getCategories s = categories s"

text \<open>
  \<open>deleteCategory\<close> deletes the category and then walks a cursor over the index
  \<^verbatim>\<open>by-category\<close> restricted to \<^verbatim>\<open>IDBKeyRange.only(id)\<close>. The index holds the records whose
  \<^verbatim>\<open>categoryId\<close> is a string (a record with \<^verbatim>\<open>null\<close> there has no index entry), ordered by
  \<^verbatim>\<open>categoryId\<close> and then by primary key. \<open>cursor_next\<close> is the record the cursor stands on
  after \<^verbatim>\<open>openCursor\<close> (\<open>pos = None\<close>) or after \<^verbatim>\<open>continue()\<close> from the primary key \<open>p\<close>
  (\<open>pos = Some p\<close>): the first index entry of the range behind that position, read from
  the store as it is at that moment; the store being in ascending key order, that is the
  first such record of the list. \<^verbatim>\<open>cursor.update(update)\<close> puts the changed record at the
  cursor's primary key.
\<close>

definition in_range :: "string \<Rightarrow> string option \<Rightarrow> PdfFile \<Rightarrow> bool" where
  "in_range i pos f =
     (categoryId f = Some i \<and> (case pos of None \<Rightarrow> True | Some p \<Rightarrow> p < id_pdf f))"

definition cursor_next :: "string \<Rightarrow> string option \<Rightarrow> PdfFile list \<Rightarrow> PdfFile option" where
  "cursor_next i pos fs = find (in_range i pos) fs"

function uncategorize :: "string \<Rightarrow> string option \<Rightarrow> PdfFile list \<Rightarrow> PdfFile list" where
  "uncategorize i pos fs =
     (case cursor_next i pos fs of
        None \<Rightarrow> fs
      | Some update \<Rightarrow>
          uncategorize i (Some (id_pdf update))
            (store_put id_pdf (update\<lparr>categoryId := None\<rparr>) fs))"
  by pat_completeness auto

definition deleteCategory :: "string \<Rightarrow> db_state \<Rightarrow> db_state" where
  "deleteCategory i s =
     (let s1 = s\<lparr>categories := store_delete id_cat i (categories s)\<rparr>
      in s1\<lparr>files := uncategorize i None (files s1)\<rparr>)"

text \<open>
  Not part of the code: the effect the cascade is meant to have on one record, used to
  state what the loop computes.
\<close>

definition uncat :: "string \<Rightarrow> PdfFile \<Rightarrow> PdfFile" where
  "uncat i f = (if categoryId f = Some i then f\<lparr>categoryId := None\<rparr> else f)"

section \<open>Sequences of store operations\<close>

text \<open>The writing operations of the store, and a run of them from the empty database.\<close>

datatype store_op =
    AddPdf PdfFile
  | UpdatePdfProgress string int "int option" int
  | UpdatePdfCategory string "string option"
  | DeletePdf string
  | AddCategory Category
  | DeleteCategory string

fun apply_op :: "store_op \<Rightarrow> db_state \<Rightarrow> db_state" where
  "apply_op (AddPdf file) s = addPdf file s"
| "apply_op (UpdatePdfProgress i page totalPagesArg now) s = updatePdfProgress i page totalPagesArg now s"
| "apply_op (UpdatePdfCategory i c) s = updatePdfCategory i c s"
| "apply_op (DeletePdf i) s = deletePdf i s"
| "apply_op (AddCategory category) s = addCategory category s"
| "apply_op (DeleteCategory i) s = deleteCategory i s"

definition run_ops :: "store_op list \<Rightarrow> db_state" where
  "run_ops ops = fold apply_op ops empty_db"

text \<open>
  Referential integrity: the \<^verbatim>\<open>categoryId\<close> of every file is \<^verbatim>\<open>null\<close> or the id of a
  category in the store.
\<close>

definition category_exists :: "string option \<Rightarrow> db_state \<Rightarrow> bool" where
  "category_exists c s =
     (case c of None \<Rightarrow> True | Some i \<Rightarrow> list_ex (\<lambda>x. id_cat x = i) (categories s))"

definition ref_integrity :: "db_state \<Rightarrow> bool" where
  "ref_integrity s = list_all (\<lambda>f. category_exists (categoryId f) s) (files s)"

text \<open>
  The store does not look a \<^verbatim>\<open>categoryId\<close> up before writing it. \<open>op_checked\<close> is the check
  left to the caller: the category written by \<open>addPdf\<close> or \<open>updatePdfCategory\<close> is \<^verbatim>\<open>null\<close>
  or exists at that moment. \<open>checked_run\<close> says that every operation of a run passes it.
\<close>

fun op_checked :: "store_op \<Rightarrow> db_state \<Rightarrow> bool" where
  "op_checked (AddPdf file) s = category_exists (categoryId file) s"
| "op_checked (UpdatePdfCategory i c) s = category_exists c s"
| "op_checked _ s = True"

fun checked_run :: "store_op list \<Rightarrow> db_state \<Rightarrow> bool" where
  "checked_run [] s = True"
| "checked_run (x # xs) s = (op_checked x s \<and> checked_run xs (apply_op x s))"

section \<open>String.prototype.trim\<close>

text \<open>
  \<^verbatim>\<open>trim()\<close> removes white space and line terminators from both ends. Of the code points
  it removes, those a \<open>char\<close> can hold are tab, line feed, vertical tab, form feed,
  carriage return, space and no-break space.
\<close>

definition isWhiteSpace :: "char \<Rightarrow> bool" where
  "isWhiteSpace c = (of_char c \<in> {9, 10, 11, 12, 13, 32, 160 :: nat})"

definition trim :: "string \<Rightarrow> string" where
  "trim s = rev (dropWhile isWhiteSpace (rev (dropWhile isWhiteSpace s)))"

definition blank :: "string \<Rightarrow> bool" where
  "blank s = list_all isWhiteSpace s"

section \<open>The library view (App.tsx, filteredFiles)\<close>

text \<open>
  \<open>filteredFiles\<close> in its three steps. \<^verbatim>\<open>activeCategoryId\<close> is \<^verbatim>\<open>string | null\<close>; a value is
  falsy when it is \<^verbatim>\<open>null\<close> or the empty string. \<^verbatim>\<open>toLowerCase\<close> and \<^verbatim>\<open>localeCompare\<close> depend
  on Unicode and on the locale, and are arguments.

  The quotient \<^verbatim>\<open>a.currentPage / a.totalPages\<close> is a division of IEEE doubles, which rounds.
  It is the argument \<open>fdiv\<close>: the double the division of the two integers returns, as the
  real number it stands for. The divisor is positive there, so the quotient is finite. The
  difference \<^verbatim>\<open>progB - progA\<close> of two finite doubles is negative, zero or positive as their
  exact difference is, and its sign is all the sort reads of it.
\<close>

datatype SortOption = AddedDesc | AddedAsc | NameAsc | NameDesc | SizeDesc | ProgressDesc

definition falsy :: "string option \<Rightarrow> bool" where
  "falsy x = (x = None \<or> x = Some [])"

definition categoryFilter :: "string option \<Rightarrow> PdfMetadata list \<Rightarrow> PdfMetadata list" where
  "categoryFilter activeCategoryId result =
     (if activeCategoryId = Some ''uncategorized'' then filter (\<lambda>f. falsy (categoryId f)) result
      else if \<not> falsy activeCategoryId \<and> activeCategoryId \<noteq> Some ''all''
        then filter (\<lambda>f. categoryId f = activeCategoryId) result
      else result)"

definition searchFilter :: "(string \<Rightarrow> string) \<Rightarrow> string \<Rightarrow> PdfMetadata list \<Rightarrow> PdfMetadata list" where
  "searchFilter toLowerCase searchQuery result =
     (if trim searchQuery \<noteq> [] then
        (let q = toLowerCase searchQuery
         in filter (\<lambda>f. sublist q (toLowerCase (name_pdf f))) result)
      else result)"

definition progress :: "(int \<Rightarrow> int \<Rightarrow> real) \<Rightarrow> PdfMetadata \<Rightarrow> real" where
  "progress fdiv a = (if totalPages a > 0 then fdiv (currentPage a) (totalPages a) else 0)"

fun compareFiles ::
  "(int \<Rightarrow> int \<Rightarrow> real) \<Rightarrow> (string \<Rightarrow> string \<Rightarrow> int) \<Rightarrow> SortOption \<Rightarrow> PdfMetadata
     \<Rightarrow> PdfMetadata \<Rightarrow> real" where
  "compareFiles fdiv localeCompare AddedDesc a b = real_of_int (addedAt b - addedAt a)"
| "compareFiles fdiv localeCompare AddedAsc a b = real_of_int (addedAt a - addedAt b)"
| "compareFiles fdiv localeCompare NameAsc a b = real_of_int (localeCompare (name_pdf a) (name_pdf b))"
| "compareFiles fdiv localeCompare NameDesc a b = real_of_int (localeCompare (name_pdf b) (name_pdf a))"
| "compareFiles fdiv localeCompare SizeDesc a b = real_of_int (size_pdf b - size_pdf a)"
| "compareFiles fdiv localeCompare ProgressDesc a b =
     (let progA = progress fdiv a; progB = progress fdiv b in progB - progA)"

definition filteredFiles ::
  "(int \<Rightarrow> int \<Rightarrow> real) \<Rightarrow> (string \<Rightarrow> string) \<Rightarrow> (string \<Rightarrow> string \<Rightarrow> int) \<Rightarrow> PdfMetadata list
     \<Rightarrow> string option \<Rightarrow> string \<Rightarrow> SortOption \<Rightarrow> PdfMetadata list" where
  "filteredFiles fdiv toLowerCase localeCompare fs activeCategoryId searchQuery sortBy =
     sort_cmp (compareFiles fdiv localeCompare sortBy)
       (searchFilter toLowerCase searchQuery (categoryFilter activeCategoryId fs))"

text \<open>
  The ids. \<^verbatim>\<open>uuidv4()\<close> belongs to the library \<^verbatim>\<open>uuid\<close>. What is taken from its contract is
  the form of the string it returns: 36 characters, a hyphen at the positions 8, 13, 18
  and 23, and a lower-case hexadecimal digit everywhere else. The id of a collection is
  such a string (\<open>handleAddCategory\<close>), and the \<^verbatim>\<open>categoryId\<close> of a record is \<^verbatim>\<open>null\<close> or the id
  of the collection that was selected at the upload (\<open>handleFileUpload\<close>).
\<close>

definition isHex :: "char \<Rightarrow> bool" where
  "isHex c = (c \<in> set ''0123456789abcdef'')"

definition isUuid :: "string \<Rightarrow> bool" where
  "isUuid s =
     (length s = 36 \<and>
      list_all (\<lambda>(i, c). if i \<in> {8, 13, 18, 23} then c = CHR ''-'' else isHex c)
        (enumerate 0 s))"

definition generatedCategoryIds :: "PdfMetadata list \<Rightarrow> bool" where
  "generatedCategoryIds fs =
     list_all (\<lambda>f. case categoryId f of None \<Rightarrow> True | Some c \<Rightarrow> isUuid c) fs"

text \<open>
  The record \<^verbatim>\<open>newPdf\<close> that \<open>handleFileUpload\<close> builds for an uploaded file of type
  \<^verbatim>\<open>application/pdf\<close> and hands to \<open>addPdf\<close>; \<^verbatim>\<open>file.size\<close> is the number of bytes of the file.
\<close>

definition newPdf :: "string \<Rightarrow> string \<Rightarrow> Blob \<Rightarrow> int \<Rightarrow> string option \<Rightarrow> PdfFile" where
  "newPdf uuid fileName fileBlob now activeCategoryId =
     \<lparr>id_pdf = uuid, name_pdf = fileName,
      categoryId = (if activeCategoryId \<noteq> Some ''all'' \<and> activeCategoryId \<noteq> Some ''uncategorized''
                    then activeCategoryId else None),
      addedAt = now, lastReadAt = None, currentPage = 1, totalPages = 0,
      size_pdf = int (length fileBlob), blob = fileBlob\<rparr>"

section \<open>Creating a collection (Sidebar.tsx, App.tsx)\<close>

text \<open>
  The state the creation path touches: the database, the \<^verbatim>\<open>categories\<close> state of \<^verbatim>\<open>App\<close>,
  and the form state of the sidebar. \<^verbatim>\<open>uuidv4()\<close> and \<^verbatim>\<open>Date.now()\<close> are the arguments
  \<open>uuid\<close> and \<open>now\<close>. \<open>handleAddSubmit\<close> is the only caller of \<open>handleAddCategory\<close>, which is
  the only caller of \<open>addCategory\<close>.
\<close>

record ui_state =
  db :: db_state
  categoriesState :: "Category list"
  newCategoryName :: string
  isAdding :: bool

definition handleAddCategory :: "string \<Rightarrow> string \<Rightarrow> int \<Rightarrow> ui_state \<Rightarrow> ui_state" where
  "handleAddCategory name uuid now u =
     (let newCat = \<lparr>id_cat = uuid, name_cat = name, createdAt = now\<rparr>
      in u\<lparr>db := addCategory newCat (db u), categoriesState := categoriesState u @ [newCat]\<rparr>)"

definition handleAddSubmit :: "string \<Rightarrow> int \<Rightarrow> ui_state \<Rightarrow> ui_state" where
  "handleAddSubmit uuid now u =
     (if trim (newCategoryName u) \<noteq> [] then
        (handleAddCategory (trim (newCategoryName u)) uuid now u)
          \<lparr>newCategoryName := [], isAdding := False\<rparr>
      else u)"

section \<open>Opening the database (services/db.ts, getDB)\<close>

text \<open>
  \<open>getDB\<close> reads and writes the module variable \<^verbatim>\<open>dbPromise\<close> and has no \<^verbatim>\<open>await\<close>: it runs
  from its first statement to its \<^verbatim>\<open>return\<close> without another task of the page in between.
  Callers that are in flight together therefore show up as calls of \<open>getDB\<close> that come one
  after the other before the open request is served.

  \<^verbatim>\<open>openDB\<close> belongs to the library \<^verbatim>\<open>idb\<close> and to the browser, not to this repository. What
  is taken from its contract: a call returns a new promise at once and queues an open
  request; the browser serves the requests in order; serving a request for version
  \<open>DB_VERSION\<close> runs the \<^verbatim>\<open>upgrade\<close> callback when, and only when, the stored database is of
  a lower version (0 when it does not exist yet), and then settles the promise with the
  connection. A promise is named by the number of the \<^verbatim>\<open>openDB\<close> call that made it.
\<close>

definition DB_VERSION :: nat where
  "DB_VERSION = 1"

record idb_env =
  dbPromise :: "nat option"
  promises :: nat
  requests :: "nat list"
  version :: nat
  upgradeRuns :: nat
  settled :: "nat list"

definition openDB :: "idb_env \<Rightarrow> nat \<times> idb_env" where
  "openDB e =
     (promises e, e\<lparr>promises := Suc (promises e), requests := requests e @ [promises e]\<rparr>)"

definition getDB :: "idb_env \<Rightarrow> nat \<times> idb_env" where
  "getDB e =
     (case dbPromise e of
        None \<Rightarrow> (let (p, e1) = openDB e in (p, e1\<lparr>dbPromise := Some p\<rparr>))
      | Some p \<Rightarrow> (p, e))"

text \<open>The browser serves the oldest open request.\<close>

definition serve :: "idb_env \<Rightarrow> idb_env" where
  "serve e =
     (case requests e of
        [] \<Rightarrow> e
      | p # ps \<Rightarrow>
          (let e1 = (if version e < DB_VERSION
                     then e\<lparr>version := DB_VERSION, upgradeRuns := Suc (upgradeRuns e)\<rparr>
                     else e)
           in e1\<lparr>requests := ps, settled := settled e1 @ [p]\<rparr>))"

text \<open>
  A schedule is a list of events: \<open>Call\<close>, some caller runs \<open>getDB\<close>; \<open>Serve\<close>, the browser
  serves a request. \<open>run\<close> returns the promise each call got, in order, and the final state.
\<close>

datatype event = Call | Serve

fun run :: "event list \<Rightarrow> idb_env \<Rightarrow> nat list \<times> idb_env" where
  "run [] e = ([], e)"
| "run (Call # evs) e =
     (let (p, e1) = getDB e; (ps, e2) = run evs e1 in (p # ps, e2))"
| "run (Serve # evs) e = run evs (serve e)"

definition calls :: "event list \<Rightarrow> nat" where
  "calls evs = length (filter (\<lambda>x. x = Call) evs)"

text \<open>
  The three states of a first initialization: the page has just loaded and the database
  does not exist; one open request is in flight; the database is created and the one
  promise is settled.
\<close>

definition fresh :: idb_env where
  "fresh = \<lparr>dbPromise = None, promises = 0, requests = [], version = 0, upgradeRuns = 0,
            settled = []\<rparr>"

definition in_flight :: idb_env where
  "in_flight = \<lparr>dbPromise = Some 0, promises = 1, requests = [0], version = 0,
                upgradeRuns = 0, settled = []\<rparr>"

definition initialized :: idb_env where
  "initialized = \<lparr>dbPromise = Some 0, promises = 1, requests = [], version = 1,
                  upgradeRuns = 1, settled = [0]\<rparr>"

text \<open>
  Not part of the code: the state a schedule is to end in. Before the first call nothing
  has happened; from the first call on one request is in flight, until the browser
  serves it.
\<close>

definition state_after :: "event list \<Rightarrow> idb_env" where
  "state_after evs =
     (if calls evs = 0 then fresh
      else if Serve \<in> set (dropWhile (\<lambda>x. x \<noteq> Call) evs) then initialized
      else in_flight)"


section \<open>Basic facts about object stores\<close>

lemma store_get_put_same: "store_get key (key v) (store_put key v xs) = Some v"
  by (induction xs) (auto simp: store_get_def)

lemma store_get_put_other: "k \<noteq> key v \<Longrightarrow> store_get key k (store_put key v xs) = store_get key k xs"
  by (induction xs) (auto simp: store_get_def)

lemma store_get_put_key: "key v = k \<Longrightarrow> store_get key k (store_put key v xs) = Some v"
  using store_get_put_same[of key v xs] by simp

lemma store_get_key: "store_get key k xs = Some f \<Longrightarrow> key f = k"
  by (auto simp: store_get_def find_Some_iff)

lemma store_delete_absent_id: "store_get key k xs = None \<Longrightarrow> store_delete key k xs = xs"
  by (induction xs) (auto simp: store_get_def store_delete_def split: if_splits)

lemma store_get_delete: "store_get key k (store_delete key k xs) = None"
  by (simp add: store_get_def store_delete_def find_None_iff)

section \<open>Round trip of a document\<close>

text \<open>
  C1. \<open>addPdf d\<close> followed by \<open>getPdfById\<close> at the id of \<open>d\<close> returns the record \<open>d\<close> itself,
  equal in every field, the blob bytes included, from any state of the database.
\<close>

theorem addPdf_getPdfById_roundtrip: "getPdfById (id_pdf d) (addPdf d s) = Some d"
  by (simp add: getPdfById_def addPdf_def store_get_put_same)

section \<open>The cursor loop of deleteCategory terminates\<close>

text \<open>
  Each round leaves one record less in the key range behind the cursor: the record the
  cursor stood on is put back without a category, and the cursor moves past its key.
\<close>

lemma filter_store_put_le:
  "\<not> Q v \<Longrightarrow> length (filter Q (store_put key v xs)) \<le> length (filter Q xs)"
  by (induction xs) auto

lemma cursor_next_SomeD:
  "cursor_next i pos fs = Some f \<Longrightarrow> f \<in> set fs \<and> in_range i pos f"
  unfolding cursor_next_def by (auto simp: find_Some_iff)

lemma in_range_step:
  assumes "cursor_next i pos fs = Some f"
  shows "length (filter (in_range i (Some (id_pdf f))) (store_put id_pdf (f\<lparr>categoryId := None\<rparr>) fs))
           < length (filter (in_range i pos) fs)"
proof -
  from cursor_next_SomeD[OF assms]
  have mem: "f \<in> set fs" and pf: "in_range i pos f"
    by auto
  have "length (filter (in_range i (Some (id_pdf f))) (store_put id_pdf (f\<lparr>categoryId := None\<rparr>) fs))
          \<le> length (filter (in_range i (Some (id_pdf f))) fs)"
    by (rule filter_store_put_le) (simp add: in_range_def)
  also have "filter (in_range i (Some (id_pdf f))) fs
          = filter (in_range i (Some (id_pdf f))) (filter (in_range i pos) fs)"
    using pf by (auto simp: in_range_def intro!: filter_cong split: option.splits)
  also have "length \<dots> < length (filter (in_range i pos) fs)"
    by (rule length_filter_less[of f]) (use mem pf in \<open>auto simp: in_range_def\<close>)
  finally show ?thesis .
qed

termination uncategorize
  by (relation "measure (\<lambda>(i, pos, fs). length (filter (in_range i pos) fs))")
     (auto simp: in_range_step)

declare uncategorize.simps [simp del]

section \<open>Well-formed stores\<close>

lemma wf_store_Cons:
  "wf_store key (x # xs) = ((\<forall>y\<in>set xs. key x < key y) \<and> wf_store key xs)"
  by (auto simp: wf_store_def)

lemma wf_store_key_inj:
  "wf_store key xs \<Longrightarrow> x \<in> set xs \<Longrightarrow> y \<in> set xs \<Longrightarrow> key x = key y \<Longrightarrow> x = y"
  unfolding wf_store_def strict_sorted_iff distinct_map by (blast dest: inj_onD)

text \<open>In a well-formed store, putting a record at a key that is present replaces it in place.\<close>

lemma store_put_replace:
  "wf_store key xs \<Longrightarrow> f \<in> set xs \<Longrightarrow> key v = key f \<Longrightarrow>
     store_put key v xs = map (\<lambda>x. if key x = key f then v else x) xs"
proof (induction xs)
  case Nil
  then show ?case by simp
next
  case (Cons x xs)
  show ?case
  proof (cases "key x = key f")
    case True
    have "\<forall>y\<in>set xs. key y \<noteq> key f"
      using Cons.prems(1) True by (auto simp: wf_store_Cons)
    then have "map (\<lambda>x. if key x = key f then v else x) xs = xs"
      by (induction xs) auto
    with True Cons.prems(3) show ?thesis by simp
  next
    case False
    then have mem: "f \<in> set xs" using Cons.prems(2) by auto
    have "key x < key f" using Cons.prems(1) mem by (auto simp: wf_store_Cons)
    with False Cons.prems Cons.IH[OF _ mem] show ?thesis
      by (auto simp: wf_store_Cons)
  qed
qed

lemma find_first_least:
  "wf_store key xs \<Longrightarrow> find P xs = Some f \<Longrightarrow> g \<in> set xs \<Longrightarrow> P g \<Longrightarrow> g \<noteq> f \<Longrightarrow> key f < key g"
  by (induction xs) (auto simp: wf_store_Cons split: if_splits simp: find_Some_iff)

section \<open>The cascade of deleteCategory\<close>

text \<open>
  The loop invariant: the store is well formed and every record of the category lies
  behind the cursor. Then the loop ends with every record of the category uncategorized
  and the others as they were.
\<close>

lemma uncategorize_map:
  "wf_store id_pdf fs \<Longrightarrow> (\<forall>f\<in>set fs. categoryId f = Some i \<longrightarrow> in_range i pos f) \<Longrightarrow>
     uncategorize i pos fs = map (uncat i) fs"
proof (induction i pos fs rule: uncategorize.induct)
  case (1 i pos fs)
  show ?case
  proof (cases "cursor_next i pos fs")
    case None
    then have "\<forall>f\<in>set fs. \<not> in_range i pos f"
      by (auto simp: cursor_next_def find_None_iff)
    with "1.prems"(2) have "\<forall>f\<in>set fs. categoryId f \<noteq> Some i" by blast
    then have "map (uncat i) fs = fs"
      by (induction fs) (auto simp: uncat_def)
    with None show ?thesis by (simp add: uncategorize.simps[of i pos fs])
  next
    case (Some f)
    let ?f' = "f\<lparr>categoryId := None\<rparr>"
    let ?fs' = "store_put id_pdf ?f' fs"
    from cursor_next_SomeD[OF Some] have mem: "f \<in> set fs" and cat: "categoryId f = Some i"
      by (auto simp: in_range_def)
    have rep: "?fs' = map (\<lambda>x. if id_pdf x = id_pdf f then ?f' else x) fs"
      by (rule store_put_replace[OF "1.prems"(1) mem]) simp
    have ids: "map id_pdf ?fs' = map id_pdf fs"
      unfolding rep by (induction fs) auto
    have wf': "wf_store id_pdf ?fs'"
      using "1.prems"(1) ids by (simp add: wf_store_def)
    have fnd: "find (in_range i pos) fs = Some f"
      using Some by (simp add: cursor_next_def)
    have inv': "\<forall>g\<in>set ?fs'. categoryId g = Some i \<longrightarrow> in_range i (Some (id_pdf f)) g"
    proof (intro ballI impI)
      fix g assume g: "g \<in> set ?fs'" and cg: "categoryId g = Some i"
      from g cg have gin: "g \<in> set fs" and gne: "id_pdf g \<noteq> id_pdf f"
        unfolding rep by (auto split: if_splits)
      have "in_range i pos g" using "1.prems"(2) gin cg by blast
      moreover have "g \<noteq> f" using gne by auto
      ultimately have "id_pdf f < id_pdf g"
        using find_first_least[OF "1.prems"(1) fnd gin] by blast
      with cg show "in_range i (Some (id_pdf f)) g" by (simp add: in_range_def)
    qed
    have "uncategorize i pos fs = uncategorize i (Some (id_pdf f)) ?fs'"
      using Some by (simp add: uncategorize.simps[of i pos fs])
    also have "\<dots> = map (uncat i) ?fs'"
      by (rule "1.IH"[OF Some wf' inv'])
    also have "\<dots> = map (uncat i) fs"
    proof -
      have "\<And>x. x \<in> set fs \<Longrightarrow> id_pdf x = id_pdf f \<Longrightarrow> x = f"
        using wf_store_key_inj[OF "1.prems"(1) _ mem] by blast
      then show ?thesis
        unfolding rep using cat by (auto simp: uncat_def)
    qed
    finally show ?thesis .
  qed
qed

lemma uncategorize_all: "wf_store id_pdf fs \<Longrightarrow> uncategorize i None fs = map (uncat i) fs"
  by (rule uncategorize_map) (simp_all add: in_range_def)

text \<open>
  C2. In a store whose file records are in ascending key order (as the object store keeps
  them), after \<open>deleteCategory c\<close> every file whose \<^verbatim>\<open>categoryId\<close> was \<open>c\<close> has \<^verbatim>\<open>categoryId\<close>
  \<^verbatim>\<open>null\<close> and is otherwise as before, every other file is unchanged, no file is added or
  lost, and \<open>getCategories\<close> returns the former categories without those of id \<open>c\<close>.
\<close>

theorem deleteCategory_cascade:
  assumes "wf_store id_pdf (files s)"
  shows "files (deleteCategory c s) =
           map (\<lambda>f. if categoryId f = Some c then f\<lparr>categoryId := None\<rparr> else f) (files s)
         \<and> getCategories (deleteCategory c s) = filter (\<lambda>x. id_cat x \<noteq> c) (getCategories s)
         \<and> \<not> list_ex (\<lambda>x. id_cat x = c) (getCategories (deleteCategory c s))"
proof -
  have "uncategorize c None (files s) = map (uncat c) (files s)"
    by (rule uncategorize_all[OF assms])
  then show ?thesis
    by (simp add: deleteCategory_def getCategories_def Let_def store_delete_def list_ex_iff
        uncat_def[abs_def])
qed

text \<open>
  The scenario of the specification: collection \<open>c\<close>, two uploads into it and one
  uncategorized upload, then \<open>deleteCategory\<close>.
\<close>

theorem deleteCategory_cascade_witness:
  "wf_store id_pdf (files (run_ops
       [AddCategory \<lparr>id_cat = ''c'', name_cat = ''Maths'', createdAt = 1\<rparr>,
        AddPdf (newPdf ''d1'' ''a.pdf'' [37, 80] 2 (Some ''c'')),
        AddPdf (newPdf ''d2'' ''b.pdf'' [37] 3 (Some ''c'')),
        AddPdf (newPdf ''d3'' ''c.pdf'' [] 4 None)]))
   \<and> files (deleteCategory ''c'' (run_ops
       [AddCategory \<lparr>id_cat = ''c'', name_cat = ''Maths'', createdAt = 1\<rparr>,
        AddPdf (newPdf ''d1'' ''a.pdf'' [37, 80] 2 (Some ''c'')),
        AddPdf (newPdf ''d2'' ''b.pdf'' [37] 3 (Some ''c'')),
        AddPdf (newPdf ''d3'' ''c.pdf'' [] 4 None)]))
     = [newPdf ''d1'' ''a.pdf'' [37, 80] 2 None, newPdf ''d2'' ''b.pdf'' [37] 3 None,
        newPdf ''d3'' ''c.pdf'' [] 4 None]
   \<and> getCategories (deleteCategory ''c'' (run_ops
       [AddCategory \<lparr>id_cat = ''c'', name_cat = ''Maths'', createdAt = 1\<rparr>,
        AddPdf (newPdf ''d1'' ''a.pdf'' [37, 80] 2 (Some ''c'')),
        AddPdf (newPdf ''d2'' ''b.pdf'' [37] 3 (Some ''c'')),
        AddPdf (newPdf ''d3'' ''c.pdf'' [] 4 None)])) = []"
proof -
  have run: "run_ops
       [AddCategory \<lparr>id_cat = ''c'', name_cat = ''Maths'', createdAt = 1\<rparr>,
        AddPdf (newPdf ''d1'' ''a.pdf'' [37, 80] 2 (Some ''c'')),
        AddPdf (newPdf ''d2'' ''b.pdf'' [37] 3 (Some ''c'')),
        AddPdf (newPdf ''d3'' ''c.pdf'' [] 4 None)]
     = \<lparr>files = [newPdf ''d1'' ''a.pdf'' [37, 80] 2 (Some ''c''),
                 newPdf ''d2'' ''b.pdf'' [37] 3 (Some ''c''),
                 newPdf ''d3'' ''c.pdf'' [] 4 None],
        categories = [\<lparr>id_cat = ''c'', name_cat = ''Maths'', createdAt = 1\<rparr>]\<rparr>"
    by (simp add: run_ops_def empty_db_def addCategory_def addPdf_def newPdf_def)
  have wf: "wf_store id_pdf (files (run_ops
       [AddCategory \<lparr>id_cat = ''c'', name_cat = ''Maths'', createdAt = 1\<rparr>,
        AddPdf (newPdf ''d1'' ''a.pdf'' [37, 80] 2 (Some ''c'')),
        AddPdf (newPdf ''d2'' ''b.pdf'' [37] 3 (Some ''c'')),
        AddPdf (newPdf ''d3'' ''c.pdf'' [] 4 None)]))"
    unfolding run by (simp add: wf_store_def newPdf_def)
  show ?thesis
    using wf deleteCategory_cascade[OF wf, of "''c''"]
    unfolding run by (simp add: newPdf_def getCategories_def)
qed

section \<open>Listing the metadata\<close>

text \<open>With this comparator the stable insertion is the library's insertion by the key \<open>- addedAt\<close>.\<close>

lemma insort_cmp_addedAt:
  "insort_cmp (\<lambda>a b. addedAt b - addedAt a) x ys = insort_key (\<lambda>m. - addedAt m) x ys"
  by (induction ys) auto

lemma sort_cmp_addedAt:
  "sort_cmp (\<lambda>a b. addedAt b - addedAt a) xs = sort_key (\<lambda>m. - addedAt m) xs"
  unfolding sort_cmp_def sort_key_def
  by (induction xs) (simp_all add: insort_cmp_addedAt)

text \<open>
  C3. \<open>getAllPdfMetadata\<close> returns the metadata projections of the stored files, each
  exactly once (as multisets: nothing added, lost or repeated); a returned record is of
  the type \<open>PdfMetadata\<close>, which has no blob field; and the result is in descending order of
  \<^verbatim>\<open>addedAt\<close>, the most recently added first.
\<close>

theorem getAllPdfMetadata_projection_sorted:
  "mset (getAllPdfMetadata s) = mset (map PdfMetadata.truncate (files s))
   \<and> sorted_wrt (\<lambda>a b. addedAt a \<ge> addedAt b) (getAllPdfMetadata s)"
proof -
  have "sorted (map (\<lambda>m. - addedAt m) (getAllPdfMetadata s))"
    by (simp add: getAllPdfMetadata_def sort_cmp_addedAt)
  then have "sorted_wrt (\<lambda>a b. addedAt a \<ge> addedAt b) (getAllPdfMetadata s)"
    by (simp add: sorted_map)
  then show ?thesis
    by (simp add: getAllPdfMetadata_def sort_cmp_addedAt)
qed

section \<open>Progress updates\<close>

text \<open>
  C4. For a stored file \<open>f\<close> with id \<open>i\<close>, \<open>updatePdfProgress i page totalPagesArg now\<close> is one
  transition of the store after which the record at \<open>i\<close> is \<open>f\<close> with \<^verbatim>\<open>currentPage\<close> set to
  \<open>page\<close>, \<^verbatim>\<open>lastReadAt\<close> set to the time \<open>now\<close> of the call, and \<^verbatim>\<open>totalPages\<close> set to the argument
  when one is passed and is not 0, and left as it was when none is passed or 0 is passed.
  A second call decides: after two calls the page and the time are those of the second,
  also when its page is the smaller one.
\<close>

theorem updatePdfProgress_sets_cursor:
  assumes "getPdfById i s = Some f"
  shows "getPdfById i (updatePdfProgress i page totalPagesArg now s) =
           Some (f\<lparr>currentPage := page, lastReadAt := Some now,
                   totalPages := (case totalPagesArg of
                                    None \<Rightarrow> totalPages f
                                  | Some n \<Rightarrow> if n \<noteq> 0 then n else totalPages f)\<rparr>)
       \<and> (\<exists>g. getPdfById i (updatePdfProgress i page2 None now2
                               (updatePdfProgress i page totalPagesArg now s)) = Some g
              \<and> currentPage g = page2 \<and> lastReadAt g = Some now2)"
proof -
  have k: "id_pdf f = i" using assms by (simp add: getPdfById_def store_get_key)
  show ?thesis
    using assms k
    by (auto simp: getPdfById_def updatePdfProgress_def Let_def store_get_put_key
        split: option.splits)
qed

theorem updatePdfProgress_sets_cursor_witness:
  "getPdfById ''d1'' (addPdf (newPdf ''d1'' ''a.pdf'' [37, 80] 2 None) empty_db)
     = Some (newPdf ''d1'' ''a.pdf'' [37, 80] 2 None)
   \<and> getPdfById ''d1'' (updatePdfProgress ''d1'' 5 (Some 0) 90
        (addPdf (newPdf ''d1'' ''a.pdf'' [37, 80] 2 None) empty_db))
     = Some ((newPdf ''d1'' ''a.pdf'' [37, 80] 2 None)\<lparr>currentPage := 5, lastReadAt := Some 90\<rparr>)
   \<and> (\<exists>g. getPdfById ''d1'' (updatePdfProgress ''d1'' 3 None 95
              (updatePdfProgress ''d1'' 5 (Some 0) 90
                (addPdf (newPdf ''d1'' ''a.pdf'' [37, 80] 2 None) empty_db))) = Some g
          \<and> currentPage g = 3 \<and> lastReadAt g = Some 95)"
proof -
  have h: "getPdfById ''d1'' (addPdf (newPdf ''d1'' ''a.pdf'' [37, 80] 2 None) empty_db)
     = Some (newPdf ''d1'' ''a.pdf'' [37, 80] 2 None)"
    by (simp add: getPdfById_def addPdf_def empty_db_def store_get_def newPdf_def)
  show ?thesis
    using h updatePdfProgress_sets_cursor[OF h, of 5 "Some 0" 90 3 95]
    by (simp add: newPdf_def)
qed

section \<open>Operations on an id that is not stored\<close>

text \<open>
  C5. When no file has the id \<open>i\<close>, \<open>updatePdfProgress\<close>, \<open>updatePdfCategory\<close> and \<open>deletePdf\<close>
  at \<open>i\<close> return the state they were given: they are total functions with no error branch,
  as the code has no throw on this path. From any state \<open>t\<close>, a second \<open>deletePdf i\<close> changes
  nothing more, and \<open>getPdfById i\<close> is \<open>None\<close> (the \<^verbatim>\<open>undefined\<close> of the code) after the first
  and after the second.
\<close>

theorem missing_id_is_noop:
  assumes "getPdfById i s = None"
  shows "updatePdfProgress i page totalPagesArg now s = s
       \<and> updatePdfCategory i c s = s
       \<and> deletePdf i s = s
       \<and> getPdfById i (deletePdf i t) = None
       \<and> deletePdf i (deletePdf i t) = deletePdf i t
       \<and> getPdfById i (deletePdf i (deletePdf i t)) = None"
  using assms
  by (simp add: getPdfById_def updatePdfProgress_def updatePdfCategory_def deletePdf_def
      store_delete_absent_id store_get_delete)

theorem missing_id_is_noop_witness:
  "getPdfById ''zz'' (addPdf (newPdf ''d1'' ''a.pdf'' [37, 80] 2 None) empty_db) = None
   \<and> updatePdfProgress ''zz'' 4 (Some 9) 90 (addPdf (newPdf ''d1'' ''a.pdf'' [37, 80] 2 None) empty_db)
       = addPdf (newPdf ''d1'' ''a.pdf'' [37, 80] 2 None) empty_db
   \<and> updatePdfCategory ''zz'' (Some ''c'') (addPdf (newPdf ''d1'' ''a.pdf'' [37, 80] 2 None) empty_db)
       = addPdf (newPdf ''d1'' ''a.pdf'' [37, 80] 2 None) empty_db
   \<and> deletePdf ''zz'' (addPdf (newPdf ''d1'' ''a.pdf'' [37, 80] 2 None) empty_db)
       = addPdf (newPdf ''d1'' ''a.pdf'' [37, 80] 2 None) empty_db
   \<and> getPdfById ''zz'' (deletePdf ''zz'' (addPdf (newPdf ''zz'' ''b.pdf'' [37] 3 None) empty_db)) = None"
proof -
  have h: "getPdfById ''zz'' (addPdf (newPdf ''d1'' ''a.pdf'' [37, 80] 2 None) empty_db) = None"
    by (simp add: getPdfById_def addPdf_def empty_db_def store_get_def newPdf_def)
  show ?thesis
    using h missing_id_is_noop[OF h, of 4 "Some 9" 90 "Some ''c''"
        "addPdf (newPdf ''zz'' ''b.pdf'' [37] 3 None) empty_db"]
    by simp
qed

section \<open>What an update leaves alone\<close>

text \<open>
  C10. For a stored file \<open>f\<close> with id \<open>i\<close>: after \<open>updatePdfProgress\<close> the record at \<open>i\<close> has the
  \<^verbatim>\<open>id\<close>, \<^verbatim>\<open>name\<close>, \<^verbatim>\<open>categoryId\<close>, \<^verbatim>\<open>blob\<close>, \<^verbatim>\<open>addedAt\<close> and \<^verbatim>\<open>size\<close> of \<open>f\<close>; after \<open>updatePdfCategory\<close>
  it is \<open>f\<close> with only \<^verbatim>\<open>categoryId\<close> replaced; and after either, the record at every other
  id and the categories are what they were.
\<close>

theorem update_frame:
  assumes "getPdfById i s = Some f"
  shows "(\<exists>g. getPdfById i (updatePdfProgress i page totalPagesArg now s) = Some g
            \<and> id_pdf g = id_pdf f \<and> name_pdf g = name_pdf f \<and> categoryId g = categoryId f
            \<and> blob g = blob f \<and> addedAt g = addedAt f \<and> size_pdf g = size_pdf f)
       \<and> getPdfById i (updatePdfCategory i c s) = Some (f\<lparr>categoryId := c\<rparr>)
       \<and> (\<forall>j. j \<noteq> i \<longrightarrow>
             getPdfById j (updatePdfProgress i page totalPagesArg now s) = getPdfById j s
           \<and> getPdfById j (updatePdfCategory i c s) = getPdfById j s)
       \<and> categories (updatePdfProgress i page totalPagesArg now s) = categories s
       \<and> categories (updatePdfCategory i c s) = categories s"
proof -
  have k: "id_pdf f = i" using assms by (simp add: getPdfById_def store_get_key)
  show ?thesis
    using assms k
    by (auto simp: getPdfById_def updatePdfProgress_def updatePdfCategory_def Let_def
        store_get_put_key store_get_put_other split: option.splits)
qed

theorem update_frame_witness:
  "getPdfById ''d2'' (addPdf (newPdf ''d2'' ''b.pdf'' [37] 3 None)
       (addPdf (newPdf ''d1'' ''a.pdf'' [37, 80] 2 None) empty_db))
     = Some (newPdf ''d2'' ''b.pdf'' [37] 3 None)
   \<and> getPdfById ''d2'' (updatePdfCategory ''d2'' (Some ''c'')
       (addPdf (newPdf ''d2'' ''b.pdf'' [37] 3 None)
         (addPdf (newPdf ''d1'' ''a.pdf'' [37, 80] 2 None) empty_db)))
     = Some (newPdf ''d2'' ''b.pdf'' [37] 3 (Some ''c''))
   \<and> getPdfById ''d1'' (updatePdfProgress ''d2'' 7 (Some 12) 90
       (addPdf (newPdf ''d2'' ''b.pdf'' [37] 3 None)
         (addPdf (newPdf ''d1'' ''a.pdf'' [37, 80] 2 None) empty_db)))
     = Some (newPdf ''d1'' ''a.pdf'' [37, 80] 2 None)"
proof -
  have h: "getPdfById ''d2'' (addPdf (newPdf ''d2'' ''b.pdf'' [37] 3 None)
       (addPdf (newPdf ''d1'' ''a.pdf'' [37, 80] 2 None) empty_db))
     = Some (newPdf ''d2'' ''b.pdf'' [37] 3 None)"
    by (simp add: getPdfById_def addPdf_def empty_db_def store_get_def newPdf_def)
  have g: "getPdfById ''d1'' (addPdf (newPdf ''d2'' ''b.pdf'' [37] 3 None)
       (addPdf (newPdf ''d1'' ''a.pdf'' [37, 80] 2 None) empty_db))
     = Some (newPdf ''d1'' ''a.pdf'' [37, 80] 2 None)"
    by (simp add: getPdfById_def addPdf_def empty_db_def store_get_def newPdf_def)
  show ?thesis
    using h g update_frame[OF h, of 7 "Some 12" 90 "Some ''c''"]
    by (simp add: newPdf_def)
qed

section \<open>Referential integrity\<close>

text \<open>Every operation keeps both stores in ascending key order.\<close>

lemma set_store_put: "set (store_put key v xs) \<subseteq> insert v (set xs)"
  by (induction xs) auto

lemma keys_store_put: "key ` set (store_put key v xs) = insert (key v) (key ` set xs)"
  by (induction xs) auto

lemma wf_store_put: "wf_store key xs \<Longrightarrow> wf_store key (store_put key v xs)"
proof (induction xs)
  case Nil
  then show ?case by (simp add: wf_store_def)
next
  case (Cons x xs)
  have mem: "\<And>y. y \<in> set (store_put key v xs) \<Longrightarrow> y = v \<or> y \<in> set xs"
    using set_store_put[of key v xs] by auto
  from Cons.prems have lt: "\<forall>y\<in>set xs. key x < key y" and wf: "wf_store key xs"
    by (simp_all add: wf_store_Cons)
  consider "key v < key x" | "key v = key x" | "key x < key v"
    by (rule linorder_cases)
  then show ?case
  proof cases
    case 1
    with lt wf Cons.prems show ?thesis by (auto simp: wf_store_Cons)
  next
    case 2
    with lt wf show ?thesis by (auto simp: wf_store_Cons)
  next
    case 3
    then have "store_put key v (x # xs) = x # store_put key v xs" by auto
    moreover have "\<forall>y\<in>set (store_put key v xs). key x < key y"
      using mem lt 3 by blast
    ultimately show ?thesis using Cons.IH[OF wf] by (simp add: wf_store_Cons)
  qed
qed

lemma wf_store_delete: "wf_store key xs \<Longrightarrow> wf_store key (store_delete key k xs)"
  by (induction xs) (auto simp: wf_store_Cons store_delete_def wf_store_def)

lemma map_uncat_ids: "map id_pdf (map (uncat i) fs) = map id_pdf fs"
  by (induction fs) (auto simp: uncat_def)

lemma wf_store_uncategorize: "wf_store id_pdf fs \<Longrightarrow> wf_store id_pdf (uncategorize i None fs)"
  using map_uncat_ids[of i fs] by (simp add: uncategorize_all wf_store_def del: map_map)

lemma wf_db_apply_op: "wf_db s \<Longrightarrow> wf_db (apply_op x s)"
  by (cases x)
    (auto simp: wf_db_def addPdf_def updatePdfProgress_def updatePdfCategory_def deletePdf_def
      addCategory_def deleteCategory_def Let_def wf_store_put wf_store_delete wf_store_uncategorize
      split: option.splits)

lemma wf_db_fold: "wf_db s \<Longrightarrow> wf_db (fold apply_op ops s)"
  by (induction ops arbitrary: s) (auto simp: wf_db_apply_op)

lemma wf_db_empty: "wf_db empty_db"
  by (simp add: wf_db_def wf_store_def empty_db_def)

lemma wf_db_run_ops: "wf_db (run_ops ops)"
  unfolding run_ops_def by (rule wf_db_fold[OF wf_db_empty])

lemma ref_integrity_iff:
  "ref_integrity s = (\<forall>f\<in>set (files s). category_exists (categoryId f) s)"
  by (simp add: ref_integrity_def list_all_iff)

lemma category_exists_iff:
  "category_exists c s = (c = None \<or> (\<exists>i. c = Some i \<and> i \<in> id_cat ` set (categories s)))"
  by (auto simp: category_exists_def list_ex_iff split: option.splits)

lemma store_get_mem: "store_get key k xs = Some f \<Longrightarrow> f \<in> set xs"
  by (auto simp: store_get_def find_Some_iff)

lemma category_exists_files [simp]:
  "category_exists c (s\<lparr>files := fs\<rparr>) = category_exists c s"
  by (simp add: category_exists_def split: option.splits)

lemma ref_integrity_put:
  assumes "ref_integrity s" and "category_exists (categoryId v) s"
  shows "ref_integrity (s\<lparr>files := store_put id_pdf v (files s)\<rparr>)"
  using assms set_store_put[of id_pdf v "files s"]
  by (auto simp: ref_integrity_iff)

lemma ref_integrity_apply_op:
  assumes wf: "wf_db s" and ri: "ref_integrity s" and ok: "op_checked x s"
  shows "ref_integrity (apply_op x s)"
proof (cases x)
  case (AddPdf pf)
  with ri ok show ?thesis
    by (simp add: addPdf_def ref_integrity_put)
next
  case (UpdatePdfProgress i page tp now)
  show ?thesis
  proof (cases "store_get id_pdf i (files s)")
    case None
    with UpdatePdfProgress ri show ?thesis by (simp add: updatePdfProgress_def)
  next
    case (Some f)
    define f3 where "f3 = (case tp of None \<Rightarrow> f\<lparr>currentPage := page, lastReadAt := Some now\<rparr>
               | Some n \<Rightarrow> if n \<noteq> 0 then f\<lparr>currentPage := page, lastReadAt := Some now, totalPages := n\<rparr>
                           else f\<lparr>currentPage := page, lastReadAt := Some now\<rparr>)"
    have c3: "categoryId f3 = categoryId f" by (simp add: f3_def split: option.splits)
    have st: "apply_op x s = s\<lparr>files := store_put id_pdf f3 (files s)\<rparr>"
      using UpdatePdfProgress Some
      by (simp add: updatePdfProgress_def Let_def f3_def split: option.splits)
    have "f \<in> set (files s)" using Some by (rule store_get_mem)
    with ri c3 have "category_exists (categoryId f3) s" by (simp add: ref_integrity_iff)
    with ri show ?thesis unfolding st by (rule ref_integrity_put)
  qed
next
  case (UpdatePdfCategory i c)
  show ?thesis
  proof (cases "store_get id_pdf i (files s)")
    case None
    with UpdatePdfCategory ri show ?thesis by (simp add: updatePdfCategory_def)
  next
    case (Some f)
    have st: "apply_op x s = s\<lparr>files := store_put id_pdf (f\<lparr>categoryId := c\<rparr>) (files s)\<rparr>"
      using UpdatePdfCategory Some by (simp add: updatePdfCategory_def)
    from ok UpdatePdfCategory have "category_exists (categoryId (f\<lparr>categoryId := c\<rparr>)) s" by simp
    with ri show ?thesis unfolding st by (rule ref_integrity_put)
  qed
next
  case (DeletePdf i)
  with ri show ?thesis
    by (auto simp: ref_integrity_iff deletePdf_def store_delete_def)
next
  case (AddCategory category)
  with ri keys_store_put[of id_cat category "categories s"] show ?thesis
    by (auto simp: ref_integrity_iff category_exists_iff addCategory_def)
next
  case (DeleteCategory i)
  have wff: "wf_store id_pdf (files s)" using wf by (simp add: wf_db_def)
  have st: "apply_op x s =
      \<lparr>files = map (uncat i) (files s), categories = store_delete id_cat i (categories s)\<rparr>"
    using DeleteCategory uncategorize_all[OF wff, of i]
    by (simp add: deleteCategory_def Let_def)
  show ?thesis
    unfolding st using ri
    by (auto simp: ref_integrity_iff category_exists_iff uncat_def store_delete_def)
qed

lemma checked_fold:
  "wf_db s \<Longrightarrow> ref_integrity s \<Longrightarrow> checked_run ops s \<Longrightarrow> ref_integrity (fold apply_op ops s)"
  by (induction ops arbitrary: s) (auto simp: wf_db_apply_op ref_integrity_apply_op)

text \<open>
  C6, as stated, fails: the store writes whatever \<^verbatim>\<open>categoryId\<close> it is given. After the
  single operation \<open>addPdf\<close> of a file whose \<^verbatim>\<open>categoryId\<close> is \<open>c\<close>, on the empty database, the
  file refers to a category that does not exist.
\<close>

theorem ref_integrity_counterexample:
  "\<not> ref_integrity (run_ops [AddPdf (newPdf ''d1'' ''a.pdf'' [37, 80] 2 (Some ''c''))])"
  by (simp add: run_ops_def empty_db_def addPdf_def newPdf_def ref_integrity_def
      category_exists_def)

text \<open>
  C6, amended. In every state reached from the empty database by a run of the store's
  operations in which each \<open>addPdf\<close> and each \<open>updatePdfCategory\<close> is given a \<^verbatim>\<open>categoryId\<close>
  that is \<^verbatim>\<open>null\<close> or the id of a category existing at that moment, the \<^verbatim>\<open>categoryId\<close> of
  every file is \<^verbatim>\<open>null\<close> or the id of an existing category. \<open>deleteCategory\<close>, \<open>deletePdf\<close>,
  \<open>addCategory\<close> and \<open>updatePdfProgress\<close> need no condition.
\<close>

theorem ref_integrity_checked_runs:
  "checked_run ops empty_db \<Longrightarrow> ref_integrity (run_ops ops)"
  unfolding run_ops_def
  by (rule checked_fold[OF wf_db_empty]) (simp_all add: ref_integrity_def empty_db_def)

theorem ref_integrity_checked_runs_witness:
  "checked_run
     [AddCategory \<lparr>id_cat = ''c'', name_cat = ''Maths'', createdAt = 1\<rparr>,
      AddPdf (newPdf ''d1'' ''a.pdf'' [37, 80] 2 (Some ''c'')),
      AddPdf (newPdf ''d3'' ''c.pdf'' [] 4 None),
      UpdatePdfCategory ''d3'' (Some ''c''),
      DeleteCategory ''c'',
      AddPdf (newPdf ''d4'' ''e.pdf'' [37] 6 None)] empty_db
   \<and> ref_integrity (run_ops
     [AddCategory \<lparr>id_cat = ''c'', name_cat = ''Maths'', createdAt = 1\<rparr>,
      AddPdf (newPdf ''d1'' ''a.pdf'' [37, 80] 2 (Some ''c'')),
      AddPdf (newPdf ''d3'' ''c.pdf'' [] 4 None),
      UpdatePdfCategory ''d3'' (Some ''c''),
      DeleteCategory ''c'',
      AddPdf (newPdf ''d4'' ''e.pdf'' [37] 6 None)])"
proof -
  have h: "checked_run
     [AddCategory \<lparr>id_cat = ''c'', name_cat = ''Maths'', createdAt = 1\<rparr>,
      AddPdf (newPdf ''d1'' ''a.pdf'' [37, 80] 2 (Some ''c'')),
      AddPdf (newPdf ''d3'' ''c.pdf'' [] 4 None),
      UpdatePdfCategory ''d3'' (Some ''c''),
      DeleteCategory ''c'',
      AddPdf (newPdf ''d4'' ''e.pdf'' [37] 6 None)] empty_db"
    by (simp add: empty_db_def addCategory_def addPdf_def newPdf_def updatePdfCategory_def
        category_exists_def store_get_def deleteCategory_def uncategorize.simps cursor_next_def
        in_range_def store_delete_def)
  from h ref_integrity_checked_runs[OF h] show ?thesis by simp
qed

section \<open>The category filter of the library view\<close>

lemma mset_insort_cmp: "mset (insort_cmp c x ys) = add_mset x (mset ys)"
  by (induction ys) auto

lemma mset_sort_cmp: "mset (sort_cmp c xs) = mset xs"
  unfolding sort_cmp_def by (induction xs) (simp_all add: mset_insort_cmp)

lemma searchFilter_blank: "trim q = [] \<Longrightarrow> searchFilter lc q xs = xs"
  by (simp add: searchFilter_def)

text \<open>A generated id is not empty and is neither of the two selectors: it has 36 characters.\<close>

lemma isUuid_not_selector: "isUuid c \<Longrightarrow> c \<noteq> [] \<and> c \<noteq> ''all'' \<and> c \<noteq> ''uncategorized''"
  by (auto simp: isUuid_def)

text \<open>
  What the category filter needs of its inputs: the same two equations hold for every
  selected id that is not empty and not a selector, and for every list of records in
  which no \<^verbatim>\<open>categoryId\<close> is the empty string.
\<close>

lemma categoryFilter_by_id:
  "cid \<noteq> [] \<Longrightarrow> cid \<noteq> ''all'' \<Longrightarrow> cid \<noteq> ''uncategorized'' \<Longrightarrow>
     categoryFilter (Some cid) fs = filter (\<lambda>f. categoryId f = Some cid) fs"
  by (simp add: categoryFilter_def falsy_def)

lemma categoryFilter_uncategorized:
  "\<forall>f\<in>set fs. categoryId f \<noteq> Some [] \<Longrightarrow>
     categoryFilter (Some ''uncategorized'') fs = filter (\<lambda>f. categoryId f = None) fs"
  by (auto simp: categoryFilter_def falsy_def intro!: filter_cong)

lemma generated_no_empty:
  "generatedCategoryIds fs \<Longrightarrow> \<forall>f\<in>set fs. categoryId f \<noteq> Some []"
  by (auto simp: generatedCategoryIds_def list_all_iff isUuid_def split: option.splits)

text \<open>
  C7. Collection ids are the strings \<^verbatim>\<open>uuidv4()\<close> returns, and the \<^verbatim>\<open>categoryId\<close> of a record
  is \<^verbatim>\<open>null\<close> or such an id. For every list of such records, with mixed \<^verbatim>\<open>categoryId\<close> values:
  filtering by a collection id returns exactly the records whose \<^verbatim>\<open>categoryId\<close> is that id,
  and filtering by \<^verbatim>\<open>'uncategorized'\<close> returns exactly the records whose \<^verbatim>\<open>categoryId\<close> is
  \<^verbatim>\<open>null\<close>, and no others; the category filter keeps them in their order. When the search
  box is empty or blank, what \<open>filteredFiles\<close> returns is that list of records sorted by the
  chosen sort option: the same records, each once, in exactly that order.
\<close>

theorem categoryFilter_exact:
  "(isUuid cid \<longrightarrow>
      categoryFilter (Some cid) fs = filter (\<lambda>f. categoryId f = Some cid) fs)
   \<and> (generatedCategoryIds fs \<longrightarrow>
      categoryFilter (Some ''uncategorized'') fs = filter (\<lambda>f. categoryId f = None) fs)
   \<and> (isUuid cid \<and> trim searchQuery = [] \<longrightarrow>
      filteredFiles fdiv toLowerCase localeCompare fs (Some cid) searchQuery sortBy
        = sort_cmp (compareFiles fdiv localeCompare sortBy)
            (filter (\<lambda>f. categoryId f = Some cid) fs)
      \<and> mset (filteredFiles fdiv toLowerCase localeCompare fs (Some cid) searchQuery sortBy)
        = mset (filter (\<lambda>f. categoryId f = Some cid) fs))
   \<and> (generatedCategoryIds fs \<and> trim searchQuery = [] \<longrightarrow>
      filteredFiles fdiv toLowerCase localeCompare fs (Some ''uncategorized'') searchQuery sortBy
        = sort_cmp (compareFiles fdiv localeCompare sortBy)
            (filter (\<lambda>f. categoryId f = None) fs)
      \<and> mset (filteredFiles fdiv toLowerCase localeCompare fs (Some ''uncategorized'')
                searchQuery sortBy)
        = mset (filter (\<lambda>f. categoryId f = None) fs))"
proof -
  have a: "isUuid cid \<Longrightarrow>
      categoryFilter (Some cid) fs = filter (\<lambda>f. categoryId f = Some cid) fs"
    using isUuid_not_selector[of cid] by (simp add: categoryFilter_by_id)
  have b: "generatedCategoryIds fs \<Longrightarrow>
      categoryFilter (Some ''uncategorized'') fs = filter (\<lambda>f. categoryId f = None) fs"
    by (rule categoryFilter_uncategorized) (rule generated_no_empty)
  show ?thesis
    using a b by (simp add: filteredFiles_def searchFilter_blank mset_sort_cmp)
qed

text \<open>
  Four uploads, two into one generated collection, one into another and one
  uncategorized, listed with a blank search box, the most recently added first.
\<close>

theorem categoryFilter_exact_witness:
  "isUuid ''9b1deb4d-3b7d-4bad-9bdd-2b0d7b3dcb6d''
   \<and> generatedCategoryIds
        [PdfMetadata.truncate (newPdf ''d1'' ''a.pdf'' [37] 2 (Some ''9b1deb4d-3b7d-4bad-9bdd-2b0d7b3dcb6d'')),
         PdfMetadata.truncate (newPdf ''d2'' ''b.pdf'' [37] 3 None),
         PdfMetadata.truncate (newPdf ''d3'' ''c.pdf'' [37] 4 (Some ''1c9a0f7e-52aa-4d0c-8b3e-0a6f5e2d9c41'')),
         PdfMetadata.truncate (newPdf ''d4'' ''d.pdf'' [37] 5 (Some ''9b1deb4d-3b7d-4bad-9bdd-2b0d7b3dcb6d''))]
   \<and> trim '' '' = []
   \<and> categoryFilter (Some ''9b1deb4d-3b7d-4bad-9bdd-2b0d7b3dcb6d'')
        [PdfMetadata.truncate (newPdf ''d1'' ''a.pdf'' [37] 2 (Some ''9b1deb4d-3b7d-4bad-9bdd-2b0d7b3dcb6d'')),
         PdfMetadata.truncate (newPdf ''d2'' ''b.pdf'' [37] 3 None),
         PdfMetadata.truncate (newPdf ''d3'' ''c.pdf'' [37] 4 (Some ''1c9a0f7e-52aa-4d0c-8b3e-0a6f5e2d9c41'')),
         PdfMetadata.truncate (newPdf ''d4'' ''d.pdf'' [37] 5 (Some ''9b1deb4d-3b7d-4bad-9bdd-2b0d7b3dcb6d''))]
      = [PdfMetadata.truncate (newPdf ''d1'' ''a.pdf'' [37] 2 (Some ''9b1deb4d-3b7d-4bad-9bdd-2b0d7b3dcb6d'')),
         PdfMetadata.truncate (newPdf ''d4'' ''d.pdf'' [37] 5 (Some ''9b1deb4d-3b7d-4bad-9bdd-2b0d7b3dcb6d''))]
   \<and> categoryFilter (Some ''uncategorized'')
        [PdfMetadata.truncate (newPdf ''d1'' ''a.pdf'' [37] 2 (Some ''9b1deb4d-3b7d-4bad-9bdd-2b0d7b3dcb6d'')),
         PdfMetadata.truncate (newPdf ''d2'' ''b.pdf'' [37] 3 None),
         PdfMetadata.truncate (newPdf ''d3'' ''c.pdf'' [37] 4 (Some ''1c9a0f7e-52aa-4d0c-8b3e-0a6f5e2d9c41'')),
         PdfMetadata.truncate (newPdf ''d4'' ''d.pdf'' [37] 5 (Some ''9b1deb4d-3b7d-4bad-9bdd-2b0d7b3dcb6d''))]
      = [PdfMetadata.truncate (newPdf ''d2'' ''b.pdf'' [37] 3 None)]
   \<and> filteredFiles (\<lambda>x y. real_of_int x / real_of_int y) id (\<lambda>a b. 0)
        [PdfMetadata.truncate (newPdf ''d1'' ''a.pdf'' [37] 2 (Some ''9b1deb4d-3b7d-4bad-9bdd-2b0d7b3dcb6d'')),
         PdfMetadata.truncate (newPdf ''d2'' ''b.pdf'' [37] 3 None),
         PdfMetadata.truncate (newPdf ''d3'' ''c.pdf'' [37] 4 (Some ''1c9a0f7e-52aa-4d0c-8b3e-0a6f5e2d9c41'')),
         PdfMetadata.truncate (newPdf ''d4'' ''d.pdf'' [37] 5 (Some ''9b1deb4d-3b7d-4bad-9bdd-2b0d7b3dcb6d''))]
        (Some ''9b1deb4d-3b7d-4bad-9bdd-2b0d7b3dcb6d'') '' '' AddedDesc
      = [PdfMetadata.truncate (newPdf ''d4'' ''d.pdf'' [37] 5 (Some ''9b1deb4d-3b7d-4bad-9bdd-2b0d7b3dcb6d'')),
         PdfMetadata.truncate (newPdf ''d1'' ''a.pdf'' [37] 2 (Some ''9b1deb4d-3b7d-4bad-9bdd-2b0d7b3dcb6d''))]
   \<and> filteredFiles (\<lambda>x y. real_of_int x / real_of_int y) id (\<lambda>a b. 0)
        [PdfMetadata.truncate (newPdf ''d1'' ''a.pdf'' [37] 2 (Some ''9b1deb4d-3b7d-4bad-9bdd-2b0d7b3dcb6d'')),
         PdfMetadata.truncate (newPdf ''d2'' ''b.pdf'' [37] 3 None),
         PdfMetadata.truncate (newPdf ''d3'' ''c.pdf'' [37] 4 (Some ''1c9a0f7e-52aa-4d0c-8b3e-0a6f5e2d9c41'')),
         PdfMetadata.truncate (newPdf ''d4'' ''d.pdf'' [37] 5 (Some ''9b1deb4d-3b7d-4bad-9bdd-2b0d7b3dcb6d''))]
        (Some ''uncategorized'') '' '' AddedDesc
      = [PdfMetadata.truncate (newPdf ''d2'' ''b.pdf'' [37] 3 None)]"
proof -
  have u: "isUuid ''9b1deb4d-3b7d-4bad-9bdd-2b0d7b3dcb6d''"
    by (simp add: isUuid_def isHex_def)
  have u2: "isUuid ''1c9a0f7e-52aa-4d0c-8b3e-0a6f5e2d9c41''"
    by (simp add: isUuid_def isHex_def)
  have g: "generatedCategoryIds
        [PdfMetadata.truncate (newPdf ''d1'' ''a.pdf'' [37] 2 (Some ''9b1deb4d-3b7d-4bad-9bdd-2b0d7b3dcb6d'')),
         PdfMetadata.truncate (newPdf ''d2'' ''b.pdf'' [37] 3 None),
         PdfMetadata.truncate (newPdf ''d3'' ''c.pdf'' [37] 4 (Some ''1c9a0f7e-52aa-4d0c-8b3e-0a6f5e2d9c41'')),
         PdfMetadata.truncate (newPdf ''d4'' ''d.pdf'' [37] 5 (Some ''9b1deb4d-3b7d-4bad-9bdd-2b0d7b3dcb6d''))]"
    using u u2 by (simp add: generatedCategoryIds_def newPdf_def PdfMetadata.truncate_def)
  have t: "trim '' '' = []"
    by (simp add: trim_def isWhiteSpace_def)
  show ?thesis
    using u g t
      categoryFilter_exact[of "''9b1deb4d-3b7d-4bad-9bdd-2b0d7b3dcb6d''"
        "[PdfMetadata.truncate (newPdf ''d1'' ''a.pdf'' [37] 2 (Some ''9b1deb4d-3b7d-4bad-9bdd-2b0d7b3dcb6d'')),
         PdfMetadata.truncate (newPdf ''d2'' ''b.pdf'' [37] 3 None),
         PdfMetadata.truncate (newPdf ''d3'' ''c.pdf'' [37] 4 (Some ''1c9a0f7e-52aa-4d0c-8b3e-0a6f5e2d9c41'')),
         PdfMetadata.truncate (newPdf ''d4'' ''d.pdf'' [37] 5 (Some ''9b1deb4d-3b7d-4bad-9bdd-2b0d7b3dcb6d''))]"
        "'' ''" "\<lambda>x y. real_of_int x / real_of_int y" id "\<lambda>a b. 0" AddedDesc]
    by (simp add: newPdf_def PdfMetadata.truncate_def sort_cmp_def)
qed

section \<open>Blank collection names\<close>

lemma trim_blank: "blank s \<Longrightarrow> trim s = []"
proof -
  assume "blank s"
  then have h: "dropWhile isWhiteSpace s = []"
    unfolding blank_def by (induction s) auto
  show ?thesis unfolding trim_def h by simp
qed

lemma trim_not_blank: "trim s \<noteq> [] \<Longrightarrow> \<not> blank (trim s)"
proof -
  assume ne: "trim s \<noteq> []"
  define u where "u = dropWhile isWhiteSpace (rev (dropWhile isWhiteSpace s))"
  have t: "trim s = rev u" by (simp add: trim_def u_def)
  with ne have "u \<noteq> []" by simp
  then have "\<not> isWhiteSpace (hd u)" and "hd u \<in> set u"
    unfolding u_def by (auto simp: hd_dropWhile)
  then show ?thesis
    unfolding t by (auto simp: blank_def list_all_iff)
qed

text \<open>
  C8. When the name typed into the form is empty or all white space, \<open>handleAddSubmit\<close>
  returns the state it was given: nothing is written to the database (and the form keeps
  its state). And the creation path never stores such a name: if no stored category has
  an empty or all-white-space name before \<open>handleAddSubmit\<close>, none has one after it, since
  the name it stores is the trimmed, non-empty input.
\<close>

theorem blank_name_rejected:
  "(blank (newCategoryName u) \<longrightarrow> handleAddSubmit uuid now u = u)
   \<and> (list_all (\<lambda>c. \<not> blank (name_cat c)) (categories (db u)) \<longrightarrow>
        list_all (\<lambda>c. \<not> blank (name_cat c)) (categories (db (handleAddSubmit uuid now u))))"
proof (intro conjI impI)
  assume "blank (newCategoryName u)"
  then show "handleAddSubmit uuid now u = u"
    by (simp add: handleAddSubmit_def trim_blank)
next
  assume inv: "list_all (\<lambda>c. \<not> blank (name_cat c)) (categories (db u))"
  show "list_all (\<lambda>c. \<not> blank (name_cat c)) (categories (db (handleAddSubmit uuid now u)))"
  proof (cases "trim (newCategoryName u) = []")
    case True
    with inv show ?thesis by (simp add: handleAddSubmit_def)
  next
    case False
    let ?c = "\<lparr>id_cat = uuid, name_cat = trim (newCategoryName u), createdAt = now\<rparr>"
    have "categories (db (handleAddSubmit uuid now u)) = store_put id_cat ?c (categories (db u))"
      using False by (simp add: handleAddSubmit_def handleAddCategory_def addCategory_def Let_def)
    moreover have "\<not> blank (name_cat ?c)" using False by (simp add: trim_not_blank)
    ultimately show ?thesis
      using inv set_store_put[of id_cat ?c "categories (db u)"]
      by (auto simp: list_all_iff)
  qed
qed

theorem blank_name_rejected_witness:
  "blank ''  ''
   \<and> handleAddSubmit ''c1'' 7 \<lparr>db = empty_db, categoriesState = [], newCategoryName = ''  '', isAdding = True\<rparr>
       = \<lparr>db = empty_db, categoriesState = [], newCategoryName = ''  '', isAdding = True\<rparr>
   \<and> list_all (\<lambda>c. \<not> blank (name_cat c)) (categories empty_db)
   \<and> categories (db (handleAddSubmit ''c1'' 7
        \<lparr>db = empty_db, categoriesState = [], newCategoryName = '' Maths '', isAdding = True\<rparr>))
       = [\<lparr>id_cat = ''c1'', name_cat = ''Maths'', createdAt = 7\<rparr>]
   \<and> list_all (\<lambda>c. \<not> blank (name_cat c)) (categories (db (handleAddSubmit ''c1'' 7
        \<lparr>db = empty_db, categoriesState = [], newCategoryName = '' Maths '', isAdding = True\<rparr>)))"
proof -
  have b: "blank ''  ''" by (simp add: blank_def isWhiteSpace_def)
  have e: "list_all (\<lambda>c. \<not> blank (name_cat c)) (categories empty_db)"
    by (simp add: empty_db_def)
  have t: "trim '' Maths '' = ''Maths''" by (simp add: trim_def isWhiteSpace_def)
  have r: "categories (db (handleAddSubmit ''c1'' 7
        \<lparr>db = empty_db, categoriesState = [], newCategoryName = '' Maths '', isAdding = True\<rparr>))
       = [\<lparr>id_cat = ''c1'', name_cat = ''Maths'', createdAt = 7\<rparr>]"
    by (simp add: handleAddSubmit_def handleAddCategory_def addCategory_def t empty_db_def Let_def)
  show ?thesis
    using b e r
      blank_name_rejected[of "\<lparr>db = empty_db, categoriesState = [], newCategoryName = ''  '', isAdding = True\<rparr>" "''c1''" 7]
      blank_name_rejected[of "\<lparr>db = empty_db, categoriesState = [], newCategoryName = '' Maths '', isAdding = True\<rparr>" "''c1''" 7]
    by simp
qed


section \<open>Single-flight initialization\<close>

lemma getDB_fresh: "getDB fresh = (0, in_flight)"
  by (simp add: getDB_def openDB_def fresh_def in_flight_def)

lemma getDB_in_flight: "getDB in_flight = (0, in_flight)"
  by (simp add: getDB_def in_flight_def)

lemma getDB_initialized: "getDB initialized = (0, initialized)"
  by (simp add: getDB_def initialized_def)

lemma serve_fresh: "serve fresh = fresh"
  by (simp add: serve_def fresh_def)

lemma serve_in_flight: "serve in_flight = initialized"
  by (simp add: serve_def in_flight_def initialized_def DB_VERSION_def)

lemma serve_initialized: "serve initialized = initialized"
  by (simp add: serve_def initialized_def)

lemma run_initialized: "run evs initialized = (replicate (calls evs) 0, initialized)"
proof (induction evs)
  case Nil
  then show ?case by (simp add: calls_def)
next
  case (Cons x evs)
  then show ?case
    by (cases x) (simp_all add: calls_def getDB_initialized serve_initialized)
qed

lemma run_in_flight:
  "run evs in_flight =
     (replicate (calls evs) 0, if Serve \<in> set evs then initialized else in_flight)"
proof (induction evs)
  case Nil
  then show ?case by (simp add: calls_def)
next
  case (Cons x evs)
  show ?case
  proof (cases x)
    case Call
    with Cons show ?thesis by (simp add: calls_def getDB_in_flight)
  next
    case Serve
    then show ?thesis
      using run_initialized[of evs] by (simp add: calls_def serve_in_flight)
  qed
qed

lemma run_fresh: "run evs fresh = (replicate (calls evs) 0, state_after evs)"
proof (induction evs)
  case Nil
  then show ?case by (simp add: calls_def state_after_def)
next
  case (Cons x evs)
  show ?case
  proof (cases x)
    case Call
    then show ?thesis
      using run_in_flight[of evs] by (simp add: getDB_fresh calls_def state_after_def)
  next
    case Serve
    with Cons show ?thesis by (simp add: serve_fresh calls_def state_after_def)
  qed
qed

lemma calls_replicate: "calls (replicate n Call) = n"
  by (induction n) (simp_all add: calls_def)

lemma state_after_calls: "0 < n \<Longrightarrow> state_after (replicate n Call) = in_flight"
  by (cases n) (simp_all add: state_after_def calls_def)

lemma state_after_served:
  "0 < n \<Longrightarrow> state_after (replicate n Call @ Serve # replicate m Call) = initialized"
  by (cases n) (simp_all add: state_after_def calls_def)

text \<open>
  C9. From a freshly loaded page with no database, under every schedule of calls and
  served requests, every call of \<open>getDB\<close> returns the same promise and the state at the end
  is the one \<open>state_after\<close> names: untouched before the first call, one \<^verbatim>\<open>openDB\<close> call with
  its one request in flight from the first call until the browser serves it, and
  initialized from then on. So when \<open>n\<close> callers, at least one, call \<open>getDB\<close> before the
  request is served, they all hold the one promise, \<^verbatim>\<open>openDB\<close> has been called exactly once,
  exactly one request is queued and the \<^verbatim>\<open>upgrade\<close> body has not run yet; once the request
  is served the \<^verbatim>\<open>upgrade\<close> body has run exactly once and the promise is settled; and the \<open>m\<close>
  calls that come later return that promise and change nothing.
\<close>

theorem getDB_single_flight:
  "run evs fresh = (replicate (calls evs) 0, state_after evs)
   \<and> (0 < n \<longrightarrow>
        run (replicate n Call) fresh = (replicate n 0, in_flight)
      \<and> run (replicate n Call @ Serve # replicate m Call) fresh
          = (replicate (n + m) 0, initialized))
   \<and> getDB fresh = (0, in_flight)
   \<and> getDB in_flight = (0, in_flight)
   \<and> getDB initialized = (0, initialized)"
proof -
  have a: "0 < n \<Longrightarrow> run (replicate n Call) fresh = (replicate n 0, in_flight)"
    by (simp add: run_fresh calls_replicate state_after_calls)
  have c: "calls (replicate n Call @ Serve # replicate m Call) = n + m"
    by (simp add: calls_def)
  have b: "0 < n \<Longrightarrow> run (replicate n Call @ Serve # replicate m Call) fresh
          = (replicate (n + m) 0, initialized)"
    by (simp only: run_fresh c state_after_served)
  show ?thesis
    using a b by (simp add: run_fresh getDB_fresh getDB_in_flight getDB_initialized)
qed

text \<open>
  Two callers before the request is served and one after it. In between, the module
  holds the promise of the single \<^verbatim>\<open>openDB\<close> call, its request is queued, and the \<^verbatim>\<open>upgrade\<close>
  body has not run.
\<close>

theorem getDB_single_flight_witness:
  "0 < Suc (Suc 0)
   \<and> run [Call, Call] fresh
       = ([0, 0], \<lparr>dbPromise = Some 0, promises = 1, requests = [0], version = 0,
                    upgradeRuns = 0, settled = []\<rparr>)
   \<and> run [Call, Call, Serve, Call] fresh
       = ([0, 0, 0], \<lparr>dbPromise = Some 0, promises = 1, requests = [], version = 1,
                       upgradeRuns = 1, settled = [0]\<rparr>)"
  using getDB_single_flight[of "[]" "Suc (Suc 0)" "Suc 0"]
  by (simp add: in_flight_def initialized_def del: run.simps)

end
